theory Spec2Isabelle
  imports Main
begin

section \<open>Records and the store of list objects\<close>

text \<open>
  A record of the toy dataset is a Python tuple \<open>(key, value)\<close> with a string key and an
  integer value (Python's unbounded \<open>int\<close>). Tuples, strings and integers are immutable,
  lists are not: \<open>SparkSim.__init__\<close> keeps the very list it is given in
  \<open>self.original\<close> and a copy of it in \<open>self.data\<close>. Lists of records therefore live in
  a store and are named by references; the store is the sequence of list objects created
  so far, and a reference is the position of an object in it.
\<close>

type_synonym pyrecord = "string \<times> int"

type_synonym ref = nat

type_synonym store = "pyrecord list list"

definition alloc :: "store \<Rightarrow> pyrecord list \<Rightarrow> store \<times> ref" where
  \<comment> \<open>a new list object (a list display, a comprehension, \<open>list.copy()\<close>)\<close>
  "alloc h xs = (h @ [xs], length h)"

definition deref :: "store \<Rightarrow> ref \<Rightarrow> pyrecord list" where
  "deref h r = h ! r"

section \<open>The Spark-like transformation simulator\<close>

text \<open>
  \<open>class SparkSim\<close>: \<open>original\<close> and \<open>data\<close> are references to list objects,
  \<open>stage\<close> is a Python \<open>int\<close>. The list \<open>logs\<close> is created by the constructor, changed in
  place by \<open>append\<close> and \<open>clear\<close> only, and never bound to a second name, so it is held
  by value. The arrow U+2192 that starts each log line is written as its three UTF-8
  bytes.
\<close>

record SparkSim =
  original :: ref
  data :: ref
  stage :: int
  logs :: "string list"

record session =
  heap :: store
  sim :: SparkSim

definition cur_data :: "session \<Rightarrow> pyrecord list" where
  \<comment> \<open>the contents of \<open>sim.data\<close>\<close>
  "cur_data w = deref (heap w) (data (sim w))"

definition snapshot :: "session \<Rightarrow> pyrecord list" where
  \<comment> \<open>the contents of \<open>sim.original\<close>\<close>
  "snapshot w = deref (heap w) (original (sim w))"

definition arrow :: string where
  "arrow = [CHR 0xE2, CHR 0x86, CHR 0x92]"

definition map_log :: string where
  "map_log = arrow @ '' map: Multiplied each value by 2''"

definition filter_log :: string where
  "filter_log = arrow @ '' filter: Removed entries where key == '' @ [CHR 0x27] @ ''banana'' @ [CHR 0x27]"

definition reduce_log :: string where
  "reduce_log = arrow @ '' reduceByKey: Summed values grouped by key''"

definition SparkSim_init :: "store \<Rightarrow> ref \<Rightarrow> session" where
  \<comment> \<open>\<open>__init__(self, data)\<close>: \<open>self.original = data\<close> binds the caller's list itself\<close>
  "SparkSim_init h d =
     (case alloc h (deref h d) of (h', c) \<Rightarrow>
        \<lparr>heap = h', sim = \<lparr>original = d, data = c, stage = 0, logs = []\<rparr>\<rparr>)"

definition map_sim :: "session \<Rightarrow> session" where
  \<comment> \<open>\<open>SparkSim.map\<close>\<close>
  "map_sim w =
     (let lg = logs (sim w) @ [map_log] in
      case alloc (heap w) (map (\<lambda>(k, v). (k, v * 2)) (cur_data w)) of (h', c) \<Rightarrow>
        \<lparr>heap = h', sim = (sim w)\<lparr>logs := lg, data := c, stage := stage (sim w) + 1\<rparr>\<rparr>)"

definition filter_sim :: "session \<Rightarrow> session" where
  \<comment> \<open>\<open>SparkSim.filter\<close>\<close>
  "filter_sim w =
     (let lg = logs (sim w) @ [filter_log] in
      case alloc (heap w) (filter (\<lambda>item. fst item \<noteq> ''banana'') (cur_data w)) of (h', c) \<Rightarrow>
        \<lparr>heap = h', sim = (sim w)\<lparr>logs := lg, data := c, stage := stage (sim w) + 1\<rparr>\<rparr>)"

text \<open>
  \<open>grouped = defaultdict(list)\<close> is a dictionary in insertion order: an association list
  with distinct keys. \<open>grouped[k].append(v)\<close> extends the list of an existing key where it
  stands and puts a new key, with the list \<open>[v]\<close>, at the end.
\<close>

fun grouped_append :: "(string \<times> int list) list \<Rightarrow> string \<Rightarrow> int \<Rightarrow> (string \<times> int list) list" where
  "grouped_append [] k v = [(k, [v])]"
| "grouped_append ((k', vs) # g) k v =
     (if k' = k then (k', vs @ [v]) # g else (k', vs) # grouped_append g k v)"

definition group_records :: "pyrecord list \<Rightarrow> (string \<times> int list) list" where
  \<comment> \<open>the loop \<open>for k, v in self.data: grouped[k].append(v)\<close>\<close>
  "group_records xs = foldl (\<lambda>g (k, v). grouped_append g k v) [] xs"

definition py_sum :: "int list \<Rightarrow> int" where
  \<comment> \<open>\<open>sum(vs)\<close>: from 0, left to right\<close>
  "py_sum vs = foldl (+) 0 vs"

definition reduceByKey :: "session \<Rightarrow> session" where
  "reduceByKey w =
     (let lg = logs (sim w) @ [reduce_log];
          grouped = group_records (cur_data w) in
      case alloc (heap w) (map (\<lambda>(k, vs). (k, py_sum vs)) grouped) of (h', c) \<Rightarrow>
        \<lparr>heap = h', sim = (sim w)\<lparr>logs := lg, data := c, stage := stage (sim w) + 1\<rparr>\<rparr>)"

definition reset :: "session \<Rightarrow> session" where
  \<comment> \<open>\<open>SparkSim.reset\<close>: \<open>self.original.copy()\<close> reads the list as it is now\<close>
  "reset w =
     (case alloc (heap w) (snapshot w) of (h', c) \<Rightarrow>
        \<lparr>heap = h', sim = (sim w)\<lparr>data := c, stage := 0, logs := []\<rparr>\<rparr>)"

subsection \<open>The session and its controls\<close>

definition default_seed :: "pyrecord list" where
  "default_seed = [(''apple'', 1), (''banana'', 1), (''apple'', 1), (''carrot'', 1)]"

definition new_session :: "pyrecord list \<Rightarrow> session" where
  \<comment> \<open>\<open>st.session_state.sim = SparkSim([...])\<close>: the list display is a new object\<close>
  "new_session seed = (case alloc [] seed of (h, r) \<Rightarrow> SparkSim_init h r)"

definition next_stage :: "session \<Rightarrow> session" where
  \<comment> \<open>the body of \<open>if col1.button("Next Stage")\<close>\<close>
  "next_stage w =
     (if stage (sim w) = 0 then map_sim w
      else if stage (sim w) = 1 then filter_sim w
      else if stage (sim w) = 2 then reduceByKey w
      else w)"

text \<open>Calls on the simulator, one after the other.\<close>

datatype call = Map | Filter | ReduceByKey | NextStage | Reset

fun exec :: "call \<Rightarrow> session \<Rightarrow> session" where
  "exec Map w = map_sim w"
| "exec Filter w = filter_sim w"
| "exec ReduceByKey w = reduceByKey w"
| "exec NextStage w = next_stage w"
| "exec Reset w = reset w"

fun run :: "call list \<Rightarrow> session \<Rightarrow> session" where
  "run [] w = w"
| "run (c # cs) w = run cs (exec c w)"

text \<open>
  References are handed out by \<open>alloc\<close> only, so both references of a simulator name
  objects of the store.
\<close>

definition wf :: "session \<Rightarrow> bool" where
  "wf w \<longleftrightarrow> original (sim w) < length (heap w) \<and> data (sim w) < length (heap w)"

subsection \<open>Evaluation metrics\<close>

fun py_max_default :: "int list \<Rightarrow> int \<Rightarrow> int" where
  \<comment> \<open>\<open>max(values, default=d)\<close>\<close>
  "py_max_default [] d = d"
| "py_max_default (v # vs) d = foldl max v vs"

definition evaluation_metrics :: "session \<Rightarrow> string \<Rightarrow> int option" where
  \<comment> \<open>the number shown by \<open>st.metric\<close> for the selected metric, if one is shown\<close>
  "evaluation_metrics w metric =
     (if stage (sim w) \<ge> 3 then
        (if metric = ''Total Unique Keys'' then Some (int (length (cur_data w)))
         else if metric = ''Max Value'' then Some (py_max_default (map snd (cur_data w)) 0)
         else None)
      else None)"

section \<open>The pipeline graph\<close>

text \<open>
  Modelled from the spec: the graph container behind \<open>PipelineDAG.graph\<close> is the
  \<open>DiGraph\<close> class of the networkx library, which is not among the sources. The spec
  says of it that node identifiers are unique within the graph, that adding a node
  inserts it or overwrites its type, and that adding an edge never fails, also when an
  endpoint is not a node yet. The container is a dictionary from node identifier to the
  node's \<open>type\<close> attribute (absent for a node that only an edge has brought in), in
  insertion order, and the directed edges in insertion order.
\<close>

record DiGraph =
  node_attr :: "(string \<times> string option) list"
  adj :: "(string \<times> string) list"

definition empty_graph :: DiGraph where
  "empty_graph = \<lparr>node_attr = [], adj = []\<rparr>"

definition graph_nodes :: "DiGraph \<Rightarrow> string list" where
  \<comment> \<open>\<open>graph.nodes()\<close>\<close>
  "graph_nodes g = map fst (node_attr g)"

fun set_type :: "(string \<times> string option) list \<Rightarrow> string \<Rightarrow> string \<Rightarrow> (string \<times> string option) list" where
  "set_type [] n t = [(n, Some t)]"
| "set_type ((m, a) # ns) n t =
     (if m = n then (m, Some t) # ns else (m, a) # set_type ns n t)"

definition graph_add_node :: "DiGraph \<Rightarrow> string \<Rightarrow> string \<Rightarrow> DiGraph" where
  \<comment> \<open>\<open>graph.add_node(n, type=t)\<close>\<close>
  "graph_add_node g n t = g\<lparr>node_attr := set_type (node_attr g) n t\<rparr>"

definition touch_node :: "(string \<times> string option) list \<Rightarrow> string \<Rightarrow> (string \<times> string option) list" where
  \<comment> \<open>an endpoint of a new edge becomes a node without attributes unless it is one\<close>
  "touch_node ns n = (if n \<in> set (map fst ns) then ns else ns @ [(n, None)])"

definition graph_add_edge :: "DiGraph \<Rightarrow> string \<Rightarrow> string \<Rightarrow> DiGraph" where
  \<comment> \<open>\<open>graph.add_edge(u, v)\<close>\<close>
  "graph_add_edge g u v =
     g\<lparr>node_attr := touch_node (touch_node (node_attr g) u) v,
       adj := (if (u, v) \<in> set (adj g) then adj g else adj g @ [(u, v)])\<rparr>"

subsection \<open>The DAG builder\<close>

record PipelineDAG =
  graph :: DiGraph

definition PipelineDAG_init :: PipelineDAG where
  "PipelineDAG_init = \<lparr>graph = empty_graph\<rparr>"

definition add_node :: "PipelineDAG \<Rightarrow> string \<Rightarrow> string \<Rightarrow> PipelineDAG" where
  "add_node dag node_id node_type = dag\<lparr>graph := graph_add_node (graph dag) node_id node_type\<rparr>"

definition add_edge :: "PipelineDAG \<Rightarrow> string \<Rightarrow> string \<Rightarrow> PipelineDAG" where
  "add_edge dag from_node to_node = dag\<lparr>graph := graph_add_edge (graph dag) from_node to_node\<rparr>"

text \<open>
  \<open>PipelineDAG.draw\<close> computes the labels and the colour of every node and hands them
  to the drawing library; the layout and the picture are the library's. The model
  returns what \<open>draw\<close> computes: \<open>custom_labels\<close> for the nodes that have a type, and
  \<open>node_colors\<close>, one colour for each node of \<open>graph.nodes()\<close> in order. \<open>highlight\<close> is
  \<open>None\<close> or a node identifier.
\<close>

definition custom_labels :: "PipelineDAG \<Rightarrow> (string \<times> string) list" where
  "custom_labels dag =
     concat (map (\<lambda>(n, a). case a of None \<Rightarrow> [] | Some t \<Rightarrow> [(n, n @ [CHR 0x0A] @ ''('' @ t @ '')'')])
                 (node_attr (graph dag)))"

definition node_colors :: "PipelineDAG \<Rightarrow> string option \<Rightarrow> string list" where
  "node_colors dag highlight =
     map (\<lambda>n. if Some n = highlight then ''orange'' else ''skyblue'') (graph_nodes (graph dag))"

definition draw :: "PipelineDAG \<Rightarrow> string option \<Rightarrow> (string \<times> string) list \<times> string list" where
  "draw dag highlight = (custom_labels dag, node_colors dag highlight)"

definition highlighted :: "PipelineDAG \<Rightarrow> string option \<Rightarrow> nat" where
  \<comment> \<open>how many nodes \<open>draw\<close> paints in the accent colour\<close>
  "highlighted dag highlight = length (filter (\<lambda>c. c = ''orange'') (snd (draw dag highlight)))"

subsection \<open>Loading the configuration and building the graph\<close>

text \<open>
  The configuration has the shape \<open>{"nodes": [{"id", "type"}, ...], "edges": [[from, to],
  ...]}\<close> with strings throughout. \<open>json.load\<close> is the standard library's: what it does
  with the uploaded file is an input here. It raises an exception with a message, or it
  returns a document, which Python takes for false (\<open>null\<close>, \<open>{}\<close>, \<open>[]\<close>, \<open>0\<close>, \<open>""\<close>,
  \<open>false\<close>) or which is a configuration. Documents of another shape are not
  represented.
\<close>

record pipeline =
  nodes :: "(string \<times> string) list"
  edges :: "(string \<times> string) list"

datatype document = Falsy | Config pipeline

datatype json_load = Raises string | Returns document

datatype notice = Success string | Error string

definition default_pipeline :: pipeline where
  "default_pipeline =
     \<lparr>nodes = [(''read'', ''source''), (''map1'', ''transformation''),
               (''filter1'', ''transformation''), (''reduce1'', ''shuffle''),
               (''output'', ''sink'')],
      edges = [(''read'', ''map1''), (''map1'', ''filter1''),
               (''filter1'', ''reduce1''), (''reduce1'', ''output'')]\<rparr>"

definition load_pipeline :: "json_load option \<Rightarrow> pipeline \<times> notice option" where
  \<comment> \<open>\<open>uploaded_file\<close> is \<open>None\<close> when nothing was uploaded\<close>
  "load_pipeline uploaded_file =
     (let (loaded, shown) =
            (case uploaded_file of
               None \<Rightarrow> (None, None)
             | Some (Returns d) \<Rightarrow> (Some d, Some (Success ''Custom DAG loaded!''))
             | Some (Raises e) \<Rightarrow> (None, Some (Error (''Invalid JSON file: '' @ e))))
      in case loaded of
           Some (Config p) \<Rightarrow> (p, shown)
         | _ \<Rightarrow> (default_pipeline, shown))"

definition build_dag :: "pipeline \<Rightarrow> PipelineDAG" where
  \<comment> \<open>the two loops over \<open>pipeline["nodes"]\<close> and \<open>pipeline["edges"]\<close>\<close>
  "build_dag p =
     foldl (\<lambda>dag (u, v). add_edge dag u v)
       (foldl (\<lambda>dag (i, t). add_node dag i t) PipelineDAG_init (nodes p))
       (edges p)"

text \<open>Calls on the builder, one after the other, from the empty graph.\<close>

datatype dag_call = AddNode string string | AddEdge string string

fun dag_exec :: "PipelineDAG \<Rightarrow> dag_call \<Rightarrow> PipelineDAG" where
  "dag_exec dag (AddNode i t) = add_node dag i t"
| "dag_exec dag (AddEdge u v) = add_edge dag u v"

definition dag_run :: "dag_call list \<Rightarrow> PipelineDAG" where
  "dag_run cs = foldl dag_exec PipelineDAG_init cs"

section \<open>Properties of the simulator\<close>

lemmas sim_defs =
  alloc_def deref_def cur_data_def snapshot_def SparkSim_init_def new_session_def
  map_sim_def filter_sim_def reduceByKey_def reset_def group_records_def py_sum_def
  default_seed_def

subsection \<open>The snapshot is left alone by the simulator's own calls\<close>

lemma wf_new_session: "wf (new_session seed)"
  by (simp add: wf_def sim_defs)

lemma snapshot_new_session: "snapshot (new_session seed) = seed"
  by (simp add: sim_defs)

lemma exec_wf: "wf w \<Longrightarrow> wf (exec c w)"
  by (cases c) (auto simp: wf_def sim_defs next_stage_def Let_def)

lemma exec_snapshot: "wf w \<Longrightarrow> snapshot (exec c w) = snapshot w"
  by (cases c) (auto simp: wf_def sim_defs next_stage_def Let_def nth_append)

lemma run_wf: "wf w \<Longrightarrow> wf (run cs w)"
  by (induction cs arbitrary: w) (simp_all add: exec_wf)

lemma run_snapshot: "wf w \<Longrightarrow> snapshot (run cs w) = snapshot w"
  by (induction cs arbitrary: w) (simp_all add: exec_wf exec_snapshot)

lemma cur_data_reset: "cur_data (reset w) = snapshot w"
  by (simp add: sim_defs)

lemma exec_stage_mono: "c \<noteq> Reset \<Longrightarrow> stage (sim w) \<le> stage (sim (exec c w))"
  by (cases c) (auto simp: sim_defs next_stage_def Let_def)

lemma run_stage_mono: "Reset \<notin> set cs \<Longrightarrow> stage (sim w) \<le> stage (sim (run cs w))"
proof (induction cs arbitrary: w)
  case Nil
  show ?case by simp
next
  case (Cons c cs)
  have "stage (sim w) \<le> stage (sim (exec c w))"
    using Cons.prems by (intro exec_stage_mono) auto
  also have "\<dots> \<le> stage (sim (run cs (exec c w)))"
    using Cons.prems by (intro Cons.IH) simp
  finally show ?case by simp
qed

lemma exec_stage_logs:
  "stage (sim w) = int (length (logs (sim w))) \<Longrightarrow>
   stage (sim (exec c w)) = int (length (logs (sim (exec c w))))"
  by (cases c) (auto simp: sim_defs next_stage_def Let_def)

lemma run_stage_logs:
  "stage (sim w) = int (length (logs (sim w))) \<Longrightarrow>
   stage (sim (run cs w)) = int (length (logs (sim (run cs w))))"
  by (induction cs arbitrary: w) (simp_all add: exec_stage_logs)




text \<open>
  C2. From the default seed at stage 0, \<open>map()\<close>, then \<open>filter()\<close>, then \<open>reduceByKey()\<close>
  give in turn the doubled collection, the collection without the banana record, and
  the two records apple 4 and carrot 2 in first-seen key order.
\<close>

theorem default_seed_pipeline:
  "cur_data (new_session default_seed)
     = [(''apple'', 1), (''banana'', 1), (''apple'', 1), (''carrot'', 1)]
   \<and> stage (sim (new_session default_seed)) = 0
   \<and> cur_data (map_sim (new_session default_seed))
     = [(''apple'', 2), (''banana'', 2), (''apple'', 2), (''carrot'', 2)]
   \<and> cur_data (filter_sim (map_sim (new_session default_seed)))
     = [(''apple'', 2), (''apple'', 2), (''carrot'', 2)]
   \<and> cur_data (reduceByKey (filter_sim (map_sim (new_session default_seed))))
     = [(''apple'', 4), (''carrot'', 2)]"
  by (simp add: sim_defs)

text \<open>
  C3. After every sequence of calls on the simulator (the three transformations, the
  Next Stage control and \<open>reset\<close> itself, in any order and number), \<open>reset()\<close>
  restores the record collection to the seed the session was built on, element by
  element, sets the counter to 0 and empties the log; it is defined on every session.
  The restored collection is a new list, not the snapshot itself, and the snapshot
  still holds the seed after the call, so nothing done to the collection before or
  after reaches it.
\<close>

theorem reset_restores_seed:
  "cur_data (reset (run cs (new_session seed))) = seed
   \<and> stage (sim (reset (run cs (new_session seed)))) = 0
   \<and> logs (sim (reset (run cs (new_session seed)))) = []
   \<and> data (sim (reset (run cs (new_session seed))))
       \<noteq> original (sim (reset (run cs (new_session seed))))
   \<and> snapshot (reset (run cs (new_session seed))) = seed
   \<and> cur_data (reset w) = snapshot w
   \<and> stage (sim (reset w)) = 0
   \<and> logs (sim (reset w)) = []"
proof -
  let ?w = "run cs (new_session seed)"
  have wf: "wf ?w"
    by (simp add: run_wf wf_new_session)
  have "cur_data (reset ?w) = seed"
    by (simp add: cur_data_reset run_snapshot wf_new_session snapshot_new_session)
  moreover have "stage (sim (reset v)) = 0" and "logs (sim (reset v)) = []" for v
    by (simp_all add: reset_def alloc_def)
  moreover have "data (sim (reset ?w)) \<noteq> original (sim (reset ?w))"
    using wf by (simp add: reset_def alloc_def wf_def)
  moreover have "snapshot (reset ?w) = seed"
    using exec_snapshot [OF wf, of Reset]
    by (simp add: run_snapshot wf_new_session snapshot_new_session)
  ultimately show ?thesis
    by (simp add: cur_data_reset)
qed

text \<open>
  C5. On the default seed, the fourth use of the Next Stage control leaves the
  collection as the third one left it: apple 4 and carrot 2, at stage 3.
\<close>

theorem fourth_next_stage_changes_nothing:
  "cur_data (next_stage (next_stage (next_stage (next_stage (new_session default_seed)))))
     = cur_data (next_stage (next_stage (next_stage (new_session default_seed))))
   \<and> cur_data (next_stage (next_stage (next_stage (new_session default_seed))))
     = [(''apple'', 4), (''carrot'', 2)]
   \<and> stage (sim (next_stage (next_stage (next_stage (new_session default_seed))))) = 3
   \<and> next_stage (next_stage (next_stage (next_stage (new_session default_seed))))
     = next_stage (next_stage (next_stage (new_session default_seed)))"
  by (simp add: next_stage_def sim_defs)

text \<open>
  C7. A new simulator is at stage 0 with an empty log. Each of \<open>map\<close>, \<open>filter\<close> and
  \<open>reduceByKey\<close> adds exactly 1 to the counter and exactly one line to the log. The
  Next Stage control never lowers the counter, and no sequence of calls without
  \<open>reset\<close> does. In every session reached from a new one the counter is the number
  of lines in the log.
\<close>

theorem stage_counter_and_log:
  "stage (sim (SparkSim_init h d)) = 0 \<and> logs (sim (SparkSim_init h d)) = []
   \<and> stage (sim (new_session seed)) = 0 \<and> logs (sim (new_session seed)) = []
   \<and> stage (sim (map_sim w)) = stage (sim w) + 1
   \<and> logs (sim (map_sim w)) = logs (sim w) @ [map_log]
   \<and> stage (sim (filter_sim w)) = stage (sim w) + 1
   \<and> logs (sim (filter_sim w)) = logs (sim w) @ [filter_log]
   \<and> stage (sim (reduceByKey w)) = stage (sim w) + 1
   \<and> logs (sim (reduceByKey w)) = logs (sim w) @ [reduce_log]
   \<and> stage (sim w) \<le> stage (sim (next_stage w))
   \<and> (Reset \<notin> set cs \<longrightarrow> stage (sim w) \<le> stage (sim (run cs w)))
   \<and> stage (sim (run cs (new_session seed)))
       = int (length (logs (sim (run cs (new_session seed)))))"
proof -
  have init: "stage (sim (SparkSim_init h d)) = 0 \<and> logs (sim (SparkSim_init h d)) = []
      \<and> stage (sim (new_session seed)) = 0 \<and> logs (sim (new_session seed)) = []"
    by (simp add: sim_defs)
  have step: "stage (sim (map_sim w)) = stage (sim w) + 1
      \<and> logs (sim (map_sim w)) = logs (sim w) @ [map_log]
      \<and> stage (sim (filter_sim w)) = stage (sim w) + 1
      \<and> logs (sim (filter_sim w)) = logs (sim w) @ [filter_log]
      \<and> stage (sim (reduceByKey w)) = stage (sim w) + 1
      \<and> logs (sim (reduceByKey w)) = logs (sim w) @ [reduce_log]"
    by (simp add: sim_defs Let_def)
  have ctl: "stage (sim w) \<le> stage (sim (next_stage w))"
    using exec_stage_mono [of NextStage w] by simp
  have inv: "stage (sim (run cs (new_session seed)))
      = int (length (logs (sim (run cs (new_session seed)))))"
    by (rule run_stage_logs) (simp add: sim_defs)
  show ?thesis
    using init step ctl inv run_stage_mono [of cs w] by blast
qed

theorem stage_counter_and_log_witness:
  "Reset \<notin> set [NextStage, Map, NextStage]
   \<and> stage (sim (new_session default_seed))
       \<le> stage (sim (run [NextStage, Map, NextStage] (new_session default_seed)))
   \<and> stage (sim (run [NextStage, Map, NextStage] (new_session default_seed))) = 3"
proof -
  have nr: "Reset \<notin> set [NextStage, Map, NextStage]"
    by simp
  have "stage (sim (run [NextStage, Map, NextStage] (new_session default_seed))) = 3"
    by (simp add: next_stage_def sim_defs)
  then show ?thesis
    using nr stage_counter_and_log [of "[]" 0 default_seed "new_session default_seed"
        "[NextStage, Map, NextStage]"]
    by simp
qed

text \<open>
  C10. No call on the simulator touches the list kept in \<open>original\<close>: for every seed
  and every sequence of calls, what \<open>reset()\<close> would copy is the seed the session was
  built on, and the reference itself is the one bound at construction.
\<close>

theorem snapshot_unchanged:
  "snapshot (run cs (new_session seed)) = seed
   \<and> original (sim (run cs (new_session seed))) = original (sim (new_session seed))
   \<and> snapshot (map_sim (run cs (new_session seed))) = seed
   \<and> snapshot (filter_sim (run cs (new_session seed))) = seed
   \<and> snapshot (reduceByKey (run cs (new_session seed))) = seed"
proof -
  let ?w = "run cs (new_session seed)"
  have wf: "wf ?w"
    by (simp add: run_wf wf_new_session)
  have s: "snapshot ?w = seed"
    by (simp add: run_snapshot wf_new_session snapshot_new_session)
  have o: "original (sim (run cs v)) = original (sim v)" for v
  proof (induction cs arbitrary: v)
    case Nil
    show ?case by simp
  next
    case (Cons c cs)
    have "original (sim (exec c v)) = original (sim v)"
      by (cases c) (auto simp: sim_defs next_stage_def Let_def)
    with Cons.IH [of "exec c v"] show ?case by simp
  qed
  have "snapshot (map_sim ?w) = seed"
    using exec_snapshot [OF wf, of Map] s by simp
  moreover have "snapshot (filter_sim ?w) = seed"
    using exec_snapshot [OF wf, of Filter] s by simp
  moreover have "snapshot (reduceByKey ?w) = seed"
    using exec_snapshot [OF wf, of ReduceByKey] s by simp
  ultimately show ?thesis
    using s o by simp
qed

subsection \<open>Metrics\<close>

lemma py_max_default_Max:
  assumes "vs \<noteq> []"
  shows "py_max_default vs d = Max (set vs)"
proof (cases vs)
  case Nil
  then show ?thesis using assms by simp
next
  case (Cons v rest)
  have "(\<lambda>x s. max s x) = (max :: int \<Rightarrow> int \<Rightarrow> int)"
    by (simp add: fun_eq_iff max.commute)
  then have "py_max_default vs d = fold max rest v"
    by (simp add: Cons foldl_conv_fold)
  also have "\<dots> = Max (set (v # rest))"
    by (rule Max.set_eq_fold [symmetric])
  finally show ?thesis by (simp add: Cons)
qed

text \<open>
  C9. Once the counter has reached 3, the metric "Max Value" is shown: it is 0 when
  the collection is empty and the greatest value among the records otherwise.
\<close>

theorem max_value_metric:
  "stage (sim w) \<ge> 3 \<Longrightarrow>
     (cur_data w = [] \<longrightarrow> evaluation_metrics w ''Max Value'' = Some 0)
   \<and> (cur_data w \<noteq> [] \<longrightarrow>
        evaluation_metrics w ''Max Value'' = Some (Max (snd ` set (cur_data w))))"
  by (simp add: evaluation_metrics_def py_max_default_Max)

theorem max_value_metric_witness:
  "stage (sim (run [NextStage, NextStage, NextStage] (new_session []))) \<ge> 3
   \<and> cur_data (run [NextStage, NextStage, NextStage] (new_session [])) = []
   \<and> evaluation_metrics (run [NextStage, NextStage, NextStage] (new_session []))
        ''Max Value'' = Some 0
   \<and> stage (sim (run [NextStage, NextStage, NextStage] (new_session default_seed))) \<ge> 3
   \<and> cur_data (run [NextStage, NextStage, NextStage] (new_session default_seed))
        = [(''apple'', 4), (''carrot'', 2)]
   \<and> evaluation_metrics (run [NextStage, NextStage, NextStage] (new_session default_seed))
        ''Max Value'' = Some 4"
proof -
  let ?e = "run [NextStage, NextStage, NextStage] (new_session [])"
  let ?d = "run [NextStage, NextStage, NextStage] (new_session default_seed)"
  have e: "stage (sim ?e) \<ge> 3" and ee: "cur_data ?e = []"
    by (simp_all add: next_stage_def sim_defs)
  have d: "stage (sim ?d) \<ge> 3" and dd: "cur_data ?d = [(''apple'', 4), (''carrot'', 2)]"
    by (simp_all add: next_stage_def sim_defs)
  show ?thesis
    using e ee d dd max_value_metric [OF e] max_value_metric [OF d] by simp
qed

section \<open>Properties of the pipeline graph\<close>

lemmas dag_defs =
  add_node_def add_edge_def graph_add_node_def graph_add_edge_def touch_node_def
  PipelineDAG_init_def empty_graph_def graph_nodes_def

lemma fst_set_type_old: "n \<in> fst ` set ns \<Longrightarrow> map fst (set_type ns n t) = map fst ns"
  by (induction ns) force+

lemma fst_set_type_new: "n \<notin> fst ` set ns \<Longrightarrow> map fst (set_type ns n t) = map fst ns @ [n]"
  by (induction ns) auto

lemma fst_set_type:
  "map fst (set_type ns n t) = (if n \<in> set (map fst ns) then map fst ns else map fst ns @ [n])"
  by (simp add: fst_set_type_old fst_set_type_new)

lemma fst_touch_node:
  "map fst (touch_node ns n) = (if n \<in> set (map fst ns) then map fst ns else map fst ns @ [n])"
  by (simp add: touch_node_def)

lemma set_type_twice: "set_type (set_type ns n t1) n t2 = set_type ns n t2"
  by (induction ns) auto

lemma map_of_set_type: "map_of (set_type ns n t) n = Some (Some t)"
  by (induction ns) auto

lemma dag_exec_distinct:
  "distinct (graph_nodes (graph dag)) \<Longrightarrow> distinct (graph_nodes (graph (dag_exec dag c)))"
  by (cases c)
     (simp_all add: graph_nodes_def add_node_def add_edge_def graph_add_node_def
        graph_add_edge_def fst_set_type fst_touch_node)

lemma foldl_dag_exec_distinct:
  "distinct (graph_nodes (graph dag)) \<Longrightarrow> distinct (graph_nodes (graph (foldl dag_exec dag cs)))"
  by (induction cs arbitrary: dag) (simp_all add: dag_exec_distinct)

lemma dag_run_distinct: "distinct (graph_nodes (graph (dag_run cs)))"
  unfolding dag_run_def
  by (rule foldl_dag_exec_distinct) (simp add: PipelineDAG_init_def empty_graph_def graph_nodes_def)

lemma foldl_add_node:
  "foldl (\<lambda>dag (i, t). add_node dag i t) dag ns
     = foldl dag_exec dag (map (\<lambda>(i, t). AddNode i t) ns)"
  by (induction ns arbitrary: dag) auto

lemma foldl_add_edge:
  "foldl (\<lambda>dag (u, v). add_edge dag u v) dag es
     = foldl dag_exec dag (map (\<lambda>(u, v). AddEdge u v) es)"
  by (induction es arbitrary: dag) auto

lemma build_dag_run:
  "build_dag p
     = dag_run (map (\<lambda>(i, t). AddNode i t) (nodes p) @ map (\<lambda>(u, v). AddEdge u v) (edges p))"
  by (simp add: build_dag_def dag_run_def foldl_add_node foldl_add_edge)

lemma highlighted_count:
  "highlighted dag h = length (filter (\<lambda>n. Some n = h) (graph_nodes (graph dag)))"
  by (simp add: highlighted_def draw_def node_colors_def filter_map comp_def)

lemma distinct_highlight_count:
  "distinct xs \<Longrightarrow>
   length (filter (\<lambda>n. Some n = h) xs)
     = (case h of None \<Rightarrow> 0 | Some i \<Rightarrow> if i \<in> set xs then 1 else 0)"
  by (induction xs) (auto split: option.splits)

lemma distinct_count_list: "distinct xs \<Longrightarrow> x \<in> set xs \<Longrightarrow> count_list xs x = 1"
  by (induction xs) auto

text \<open>
  C4. When \<open>json.load\<close> raises on the uploaded file, the exception is caught, an error
  notice is shown, and the pipeline is the default one; the graph built from it has the
  five nodes read, map1, filter1, reduce1 and output with their types, and the four edges
  of the chain.
\<close>

theorem malformed_upload_gives_default:
  "fst (load_pipeline (Some (Raises e))) = default_pipeline
   \<and> snd (load_pipeline (Some (Raises e))) = Some (Error (''Invalid JSON file: '' @ e))
   \<and> graph (build_dag (fst (load_pipeline (Some (Raises e))))) =
       \<lparr>node_attr = [(''read'', Some ''source''), (''map1'', Some ''transformation''),
                    (''filter1'', Some ''transformation''), (''reduce1'', Some ''shuffle''),
                    (''output'', Some ''sink'')],
        adj = [(''read'', ''map1''), (''map1'', ''filter1''),
               (''filter1'', ''reduce1''), (''reduce1'', ''output'')]\<rparr>"
  by (simp add: load_pipeline_def build_dag_def default_pipeline_def add_node_def add_edge_def
        graph_add_node_def graph_add_edge_def touch_node_def PipelineDAG_init_def
        empty_graph_def)

text \<open>
  C6. For the graph built from any configuration, \<open>draw\<close> paints exactly one node in
  the accent colour when \<open>highlight\<close> is the identifier of a node of the graph, and none
  when it is \<open>None\<close> or the identifier of no node; every node other than the highlighted
  one is painted in the neutral colour.
\<close>

theorem draw_highlights_at_most_one:
  "highlighted (build_dag p) h
     = (case h of None \<Rightarrow> 0
        | Some i \<Rightarrow> if i \<in> set (graph_nodes (graph (build_dag p))) then 1 else 0)
   \<and> length (node_colors (build_dag p) h) = length (graph_nodes (graph (build_dag p)))
   \<and> (\<forall>j < length (graph_nodes (graph (build_dag p))).
        Some (graph_nodes (graph (build_dag p)) ! j) \<noteq> h
        \<longrightarrow> node_colors (build_dag p) h ! j = ''skyblue'')"
proof -
  have d: "distinct (graph_nodes (graph (build_dag p)))"
    by (simp add: build_dag_run dag_run_distinct)
  show ?thesis
    by (simp add: highlighted_count distinct_highlight_count [OF d] node_colors_def)
qed

theorem draw_highlights_at_most_one_witness:
  "graph_nodes (graph (build_dag default_pipeline))
     = [''read'', ''map1'', ''filter1'', ''reduce1'', ''output'']
   \<and> highlighted (build_dag default_pipeline) (Some ''map1'') = 1
   \<and> highlighted (build_dag default_pipeline) (Some ''sort1'') = 0
   \<and> highlighted (build_dag default_pipeline) None = 0
   \<and> (0::nat) < length (graph_nodes (graph (build_dag default_pipeline)))
   \<and> Some (graph_nodes (graph (build_dag default_pipeline)) ! 0) \<noteq> Some ''map1''
   \<and> node_colors (build_dag default_pipeline) (Some ''map1'') ! 0 = ''skyblue''"
proof -
  have n: "graph_nodes (graph (build_dag default_pipeline))
      = [''read'', ''map1'', ''filter1'', ''reduce1'', ''output'']"
    by (simp add: build_dag_def default_pipeline_def dag_defs)
  show ?thesis
    using n
      draw_highlights_at_most_one [of default_pipeline "Some ''map1''"]
      draw_highlights_at_most_one [of default_pipeline "Some ''sort1''"]
      draw_highlights_at_most_one [of default_pipeline None]
    by simp
qed

text \<open>
  C8. In every graph reached from the empty one by calls of \<open>add_node\<close> and
  \<open>add_edge\<close>, adding a node \<open>i\<close> with type \<open>t1\<close> and then again with type \<open>t2\<close> leaves
  the node identifiers distinct, \<open>i\<close> among them exactly once, with type \<open>t2\<close>: the
  graph is the one that adding \<open>i\<close> once with type \<open>t2\<close> gives.
\<close>

theorem add_node_twice_overwrites:
  "distinct (graph_nodes (graph (dag_run cs)))
   \<and> distinct (graph_nodes (graph (add_node (add_node (dag_run cs) i t1) i t2)))
   \<and> count_list (graph_nodes (graph (add_node (add_node (dag_run cs) i t1) i t2))) i = 1
   \<and> map_of (node_attr (graph (add_node (add_node (dag_run cs) i t1) i t2))) i = Some (Some t2)
   \<and> add_node (add_node (dag_run cs) i t1) i t2 = add_node (dag_run cs) i t2"
proof -
  have eq: "add_node (add_node (dag_run cs) i t1) i t2 = add_node (dag_run cs) i t2"
    by (simp add: add_node_def graph_add_node_def set_type_twice)
  have d: "distinct (graph_nodes (graph (add_node (dag_run cs) i t2)))"
    using dag_exec_distinct [OF dag_run_distinct, of cs "AddNode i t2"] by simp
  have m: "i \<in> set (graph_nodes (graph (add_node (dag_run cs) i t2)))"
    by (simp add: graph_nodes_def add_node_def graph_add_node_def fst_set_type)
  have c: "count_list (graph_nodes (graph (add_node (dag_run cs) i t2))) i = 1"
    using d m by (rule distinct_count_list)
  have t: "map_of (node_attr (graph (add_node (dag_run cs) i t2))) i = Some (Some t2)"
    by (simp add: add_node_def graph_add_node_def map_of_set_type)
  show ?thesis
    using eq d c t dag_run_distinct [of cs] by simp
qed

end
